theory Spec2Isabelle
  imports Complex_Main
begin

section \<open>The SVG freehand drawing tool (script.js)\<close>

text \<open>
  A shallow embedding of \<^verbatim>\<open>script.js\<close>: the module-level variables and the part of the
  document the handlers touch form a state record, every handler is a function on it.

  Conventions of the embedding.
  \<^item> A JavaScript Number is an IEEE double; it is idealised here as a \<^typ>\<open>real\<close>, so
    rounding, \<^verbatim>\<open>NaN\<close> and the infinities are not represented. Numbers are only
    carried around: the general theorems rest on no law of arithmetic, and arithmetic is
    evaluated only at the sample inputs, whose values are the same in double arithmetic.
    What the coordinate mapping computes exactly (its linearity, its behaviour on a box
    of width 0) is a matter of double arithmetic and is not stated here.
  \<^item> The \<^verbatim>\<open>d\<close> attribute of a path is a string that the code only ever builds by
    concatenating the pieces \<^verbatim>\<open>M x y\<close>, \<^verbatim>\<open> L x y\<close> and \<^verbatim>\<open> Q cx cy x y\<close>. It is kept
    as the list of these pieces, string concatenation being list append.
  \<^item> A DOM element is an object with identity: \<^verbatim>\<open>currentPath\<close>, the entries of
    \<^verbatim>\<open>strokeHistory\<close> and the children of \<^verbatim>\<open>#strokes\<close> are references into a store
    of nodes, and \<^verbatim>\<open>createElementNS\<close> allocates the next free reference.
  \<^item> What a handler reads from the page when it runs (the bounding box of the canvas,
    the values of the two controls) is an argument of the handler.
  \<^item> An exception that escapes a handler is returned next to the state the handler
    leaves behind.
\<close>

subsection \<open>Data\<close>

record point =
  px :: real
  py :: real

datatype cmd =
  MoveTo real real
  | LineTo real real
  | QuadTo real real real real

record path_el =
  attr_class :: string
  attr_stroke :: string
  attr_stroke_width :: string
  attr_fill :: string
  attr_d :: "cmd list"
  style_pointerEvents :: string

record rect =
  rect_left :: real
  rect_top :: real
  rect_width :: real
  rect_height :: real

record env =
  boundingClientRect :: rect
  colorPicker_value :: string
  widthRange_value :: string

record pointer_event =
  pointerType :: string
  button :: int
  pointerId :: int
  clientX :: real
  clientY :: real

record key_event =
  ctrlKey :: bool
  metaKey :: bool
  key :: string

datatype dom_exception = NotFoundError

datatype outcome = Returned | Threw dom_exception

record state =
  drawing :: bool
  currentPath :: "nat option"
  currentPoints :: "point list"
  strokeHistory :: "nat list"
  nodes :: "nat \<rightharpoonup> path_el"
  next_node :: nat
  strokes_children :: "nat list"
  pointer_capture :: "int option"

text \<open>
  The state when the script has been loaded: the initial values of the module variables.
  The page itself (\<^verbatim>\<open>index.html\<close>) is not among the sources, so the stroke group
  may start with any number \<open>n\<close> of child nodes (none of them a path of this script);
  they are the references below \<open>n\<close>.
\<close>

definition init_state :: "nat \<Rightarrow> state" where
  "init_state n = \<lparr>drawing = False, currentPath = None, currentPoints = [],
     strokeHistory = [], nodes = Map.empty, next_node = n, strokes_children = [0 ..< n],
     pointer_capture = None\<rparr>"

subsection \<open>Element operations\<close>

text \<open>\<^verbatim>\<open>el.setAttribute(..)\<close> on the element behind reference \<open>r\<close>.\<close>

definition update_node :: "nat \<Rightarrow> (path_el \<Rightarrow> path_el) \<Rightarrow> state \<Rightarrow> state" where
  "update_node r f s =
     (case nodes s r of
        None \<Rightarrow> s
      | Some el \<Rightarrow> s\<lparr>nodes := (nodes s)(r \<mapsto> f el)\<rparr>)"

text \<open>\<^verbatim>\<open>el.getAttribute("d")\<close>.\<close>

definition get_d :: "state \<Rightarrow> nat \<Rightarrow> cmd list" where
  "get_d s r = (case nodes s r of None \<Rightarrow> [] | Some el \<Rightarrow> attr_d el)"

subsection \<open>getSvgPoint\<close>

definition vbWidth :: real where
  "vbWidth = 1000"

definition vbHeight :: real where
  "vbHeight = 600"

definition getSvgPoint :: "env \<Rightarrow> pointer_event \<Rightarrow> point" where
  "getSvgPoint v event =
     (let r = boundingClientRect v;
          x = ((clientX event - rect_left r) / rect_width r) * vbWidth;
          y = ((clientY event - rect_top r) / rect_height r) * vbHeight
      in \<lparr>px = x, py = y\<rparr>)"

subsection \<open>beginStroke\<close>

text \<open>
  \<^verbatim>\<open>svg.setPointerCapture\<close> is called with the pointer of the event being handled,
  which is an active pointer, so the call succeeds and the canvas holds the capture.
\<close>

definition beginStroke :: "env \<Rightarrow> pointer_event \<Rightarrow> state \<Rightarrow> outcome \<times> state" where
  "beginStroke v event s =
     (if pointerType event = ''mouse'' \<and> button event \<noteq> 0 then (Returned, s)
      else
        let p = getSvgPoint v event;
            r = next_node s;
            path = \<lparr>attr_class = ''stroke'',
                    attr_stroke = colorPicker_value v,
                    attr_stroke_width = widthRange_value v,
                    attr_fill = ''none'',
                    attr_d = [MoveTo (px p) (py p)],
                    style_pointerEvents = ''none''\<rparr>
        in (Returned,
            s\<lparr>drawing := True,
              pointer_capture := Some (pointerId event),
              currentPoints := [p],
              nodes := (nodes s)(r \<mapsto> path),
              next_node := Suc r,
              currentPath := Some r,
              strokes_children := strokes_children s @ [r]\<rparr>))"

subsection \<open>continueStroke\<close>

text \<open>The loop of lines 68 to 72, from index \<open>i\<close> with the string built so far.\<close>

function smooth_loop :: "point list \<Rightarrow> nat \<Rightarrow> cmd list \<Rightarrow> cmd list" where
  "smooth_loop pts i d =
     (if i < length pts - 1 then
        let midX = (px (pts ! i) + px (pts ! (i + 1))) / 2;
            midY = (py (pts ! i) + py (pts ! (i + 1))) / 2
        in smooth_loop pts (i + 1) (d @ [QuadTo (px (pts ! i)) (py (pts ! i)) midX midY])
      else d)"
  by pat_completeness auto
termination
  by (relation "measure (\<lambda>(pts, i, d). length pts - 1 - i)") auto

declare smooth_loop.simps [simp del]

text \<open>Lines 67 to 75: the string rebuilt from the whole point list.\<close>

definition smooth_d :: "point list \<Rightarrow> cmd list" where
  "smooth_d pts =
     (let d = [MoveTo (px (pts ! 0)) (py (pts ! 0))];
          d = smooth_loop pts 1 d;
          lastp = pts ! (length pts - 1)
      in d @ [LineTo (px lastp) (py lastp)])"

definition continueStroke :: "env \<Rightarrow> pointer_event \<Rightarrow> state \<Rightarrow> outcome \<times> state" where
  "continueStroke v event s =
     (if \<not> drawing s then (Returned, s)
      else
        case currentPath s of
          None \<Rightarrow> (Returned, s)
        | Some r \<Rightarrow>
            let p = getSvgPoint v event;
                s1 = s\<lparr>currentPoints := currentPoints s @ [p]\<rparr>
            in if length (currentPoints s1) < 3 then
                 (Returned,
                  update_node r (\<lambda>el. el\<lparr>attr_d := get_d s1 r @ [LineTo (px p) (py p)]\<rparr>) s1)
               else
                 (Returned,
                  update_node r (\<lambda>el. el\<lparr>attr_d := smooth_d (currentPoints s1)\<rparr>) s1))"

subsection \<open>endStroke\<close>

text \<open>
  \<^verbatim>\<open>svg.releasePointerCapture\<close> inside \<^verbatim>\<open>try { } catch (e) {}\<close>: the capture is
  dropped when it is held for this pointer, and nothing escapes otherwise.
\<close>

definition releasePointerCapture :: "int \<Rightarrow> state \<Rightarrow> state" where
  "releasePointerCapture pid s =
     (if pointer_capture s = Some pid then s\<lparr>pointer_capture := None\<rparr> else s)"

text \<open>
  \<^verbatim>\<open>strokesGroup.removeChild(currentPath)\<close> throws \<^verbatim>\<open>NotFoundError\<close> when the path is
  not a child of the group; the statements after it are then not run.
\<close>

definition endStroke :: "env \<Rightarrow> pointer_event \<Rightarrow> state \<Rightarrow> outcome \<times> state" where
  "endStroke v event s =
     (if \<not> drawing s then (Returned, s)
      else
        let s1 = releasePointerCapture (pointerId event) (s\<lparr>drawing := False\<rparr>)
        in case currentPath s1 of
             None \<Rightarrow> (Returned, s1)
           | Some r \<Rightarrow>
               if length (currentPoints s1) < 2 then
                 (if r \<in> set (strokes_children s1) then
                    (Returned,
                     s1\<lparr>strokes_children := remove1 r (strokes_children s1),
                        currentPath := None,
                        currentPoints := []\<rparr>)
                  else (Threw NotFoundError, s1))
               else
                 let s2 = update_node r (\<lambda>el. el\<lparr>attr_stroke := colorPicker_value v\<rparr>) s1;
                     s3 = update_node r (\<lambda>el. el\<lparr>attr_stroke_width := widthRange_value v\<rparr>) s2
                 in (Returned,
                     s3\<lparr>strokeHistory := strokeHistory s3 @ [r],
                        currentPath := None,
                        currentPoints := []\<rparr>))"

subsection \<open>undoLast and clearAll\<close>

text \<open>
  \<^verbatim>\<open>strokeHistory.pop()\<close> gives \<^verbatim>\<open>undefined\<close> on the empty array. Paths are only ever
  attached to \<^verbatim>\<open>#strokes\<close>, so \<^verbatim>\<open>last.parentNode\<close> is that group or \<^verbatim>\<open>null\<close>.
\<close>

definition undoLast :: "state \<Rightarrow> outcome \<times> state" where
  "undoLast s =
     (case rev (strokeHistory s) of
        [] \<Rightarrow> (Returned, s)
      | lastr # _ \<Rightarrow>
          let s1 = s\<lparr>strokeHistory := butlast (strokeHistory s)\<rparr>
          in if lastr \<in> set (strokes_children s1) then
               (Returned, s1\<lparr>strokes_children := remove1 lastr (strokes_children s1)\<rparr>)
             else (Returned, s1))"

text \<open>\<^verbatim>\<open>while (firstChild) removeChild(firstChild)\<close> on the list of children.\<close>

fun remove_children :: "nat list \<Rightarrow> nat list" where
  "remove_children [] = []"
| "remove_children (c # cs) = remove_children (remove1 c (c # cs))"

definition clearAll :: "state \<Rightarrow> outcome \<times> state" where
  "clearAll s =
     (let s1 = s\<lparr>strokeHistory := []\<rparr>
      in (Returned, s1\<lparr>strokes_children := remove_children (strokes_children s1)\<rparr>))"

subsection \<open>saveAsPng\<close>

text \<open>
  The export touches no module variable and works on a deep clone of the canvas. What
  it does to the page is recorded as the list of calls it makes, in order. Whether the
  browser can load the serialised clone as an image decides which of the two callbacks
  (\<^verbatim>\<open>img.onload\<close>, \<^verbatim>\<open>img.onerror\<close>) runs; that and the value of \<^verbatim>\<open>Date.now()\<close>
  are arguments.
\<close>

datatype image_load = Loaded | Failed

datatype effect =
  CreateObjectURL "path_el option list"
  | FillRect string real real real real
  | DrawImage real real real real
  | RevokeObjectURL
  | Download string
  | Alert string

text \<open>A non-negative integer in a template literal: its decimal digits.\<close>

definition digit_char :: "nat \<Rightarrow> char" where
  "digit_char n = ''0123456789'' ! n"

fun decimal :: "nat \<Rightarrow> string" where
  "decimal n = (if n < 10 then [digit_char n] else decimal (n div 10) @ [digit_char (n mod 10)])"

declare decimal.simps [simp del]

definition save_failed_message :: string where
  "save_failed_message =
     ''Could not save image '' @ [char_of (226::nat), char_of (128::nat), char_of (148::nat)] @
     '' this may be blocked by browser in some environments.''"

definition saveAsPng :: "image_load \<Rightarrow> nat \<Rightarrow> state \<Rightarrow> effect list \<times> state" where
  "saveAsPng loaded now s =
     (let vb_width = 1000;
          vb_height = 600;
          clone = map (nodes s) (strokes_children s);
          started = [CreateObjectURL clone]
      in case loaded of
           Loaded \<Rightarrow>
             (started @
                [FillRect ''#ffffff'' 0 0 vb_width vb_height,
                 DrawImage 0 0 vb_width vb_height,
                 RevokeObjectURL,
                 Download (''drawing_'' @ decimal now @ ''.png'')],
              s)
         | Failed \<Rightarrow> (started @ [RevokeObjectURL, Alert save_failed_message], s))"

subsection \<open>Event wiring\<close>

datatype input =
  PointerDown env pointer_event
  | PointerMove env pointer_event
  | PointerUp env pointer_event
  | PointerCancel env pointer_event
  | PointerLeave
  | ClearClick
  | UndoClick
  | SaveClick image_load nat
  | KeyDown key_event

text \<open>\<^verbatim>\<open>e.key.toLowerCase() === "z"\<close>: the key is the letter z in either case.\<close>

definition key_is_z :: "string \<Rightarrow> bool" where
  "key_is_z k = (k = ''z'' \<or> k = ''Z'')"

fun step :: "input \<Rightarrow> state \<Rightarrow> state" where
  "step (PointerDown v e) s = snd (beginStroke v e s)"
| "step (PointerMove v e) s = snd (continueStroke v e s)"
| "step (PointerUp v e) s = snd (endStroke v e s)"
| "step (PointerCancel v e) s = snd (endStroke v e s)"
| "step PointerLeave s = s"
| "step ClearClick s = snd (clearAll s)"
| "step UndoClick s = snd (undoLast s)"
| "step (SaveClick l n) s = snd (saveAsPng l n s)"
| "step (KeyDown e) s =
     (if (ctrlKey e \<or> metaKey e) \<and> key_is_z (key e) then snd (undoLast s) else s)"

fun run :: "input list \<Rightarrow> state \<Rightarrow> state" where
  "run [] s = s"
| "run (i # is) s = run is (step i s)"

subsection \<open>Notions used in the statements\<close>

text \<open>
  The number of points of a stroke element. The element stores no point list; its
  \<^verbatim>\<open>d\<close> attribute has one piece for every recorded point.
\<close>

definition point_count :: "state \<Rightarrow> nat \<Rightarrow> nat" where
  "point_count s r = length (get_d s r)"

definition midpoint :: "point \<Rightarrow> point \<Rightarrow> point" where
  "midpoint a b = \<lparr>px = (px a + px b) / 2, py = (py a + py b) / 2\<rparr>"

definition move_to :: "point \<Rightarrow> cmd" where
  "move_to p = MoveTo (px p) (py p)"

definition line_to :: "point \<Rightarrow> cmd" where
  "line_to p = LineTo (px p) (py p)"

definition quad_to :: "point \<Rightarrow> point \<Rightarrow> cmd" where
  "quad_to c p = QuadTo (px c) (py c) (px p) (py p)"

text \<open>
  The smoothing rules as the specification words them: nothing for 0 or 1 points, a
  straight segment for 2 points, and for 3 or more points a quadratic segment for every
  interior point, with that point as control point and the midpoint to its successor as
  end point, followed by a straight segment to the last point.
\<close>

definition spec_curve :: "point list \<Rightarrow> cmd list" where
  "spec_curve P =
     (if length P < 2 then []
      else if length P = 2 then [move_to (P ! 0), line_to (P ! 1)]
      else move_to (P ! 0)
           # map (\<lambda>i. quad_to (P ! i) (midpoint (P ! i) (P ! (i + 1)))) [1 ..< length P - 1]
           @ [line_to (P ! (length P - 1))])"

text \<open>The \<^verbatim>\<open>d\<close> attribute of the path under construction, for its point list.\<close>

definition live_d :: "point list \<Rightarrow> cmd list" where
  "live_d pts = (if length pts = 1 then [move_to (pts ! 0)] else smooth_d pts)"

text \<open>
  Consistency of a state: the children of the group are distinct allocated references,
  every committed stroke is an allocated element with at least two points, and the path
  under construction is an allocated element outside the history whose \<^verbatim>\<open>d\<close>
  attribute belongs to the recorded points.
\<close>

definition committed_ok :: "state \<Rightarrow> nat \<Rightarrow> bool" where
  "committed_ok s r =
     (r < next_node s \<and> (case nodes s r of None \<Rightarrow> False | Some el \<Rightarrow> 2 \<le> length (attr_d el)))"

definition history_ok :: "state \<Rightarrow> bool" where
  "history_ok s = list_all (committed_ok s) (strokeHistory s)"

definition current_ok :: "state \<Rightarrow> bool" where
  "current_ok s =
     (case currentPath s of
        None \<Rightarrow> True
      | Some r \<Rightarrow>
          r < next_node s \<and> r \<notin> set (strokeHistory s) \<and> currentPoints s \<noteq> [] \<and>
          (case nodes s r of None \<Rightarrow> False | Some el \<Rightarrow> attr_d el = live_d (currentPoints s)))"

definition wf :: "state \<Rightarrow> bool" where
  "wf s =
     (distinct (strokes_children s) \<and> list_all (\<lambda>r. r < next_node s) (strokes_children s) \<and>
      history_ok s \<and> current_ok s)"

text \<open>
  A gesture is a pointer-down that passes the button filter, inputs that neither press
  nor release the pointer, and a release. Its samples are the point of the pointer-down
  and the points of the pointer-moves in between.
\<close>

definition passes_filter :: "pointer_event \<Rightarrow> bool" where
  "passes_filter event = (\<not> (pointerType event = ''mouse'' \<and> button event \<noteq> 0))"

fun is_button_input :: "input \<Rightarrow> bool" where
  "is_button_input (PointerDown v e) = True"
| "is_button_input (PointerUp v e) = True"
| "is_button_input (PointerCancel v e) = True"
| "is_button_input i = False"

fun move_samples :: "input list \<Rightarrow> point list" where
  "move_samples [] = []"
| "move_samples (PointerMove v e # is) = getSvgPoint v e # move_samples is"
| "move_samples (i # is) = move_samples is"

text \<open>
  A stroke is in progress on element \<open>r\<close> with recorded points \<open>pts\<close> and the
  attributes \<open>c\<close> and \<open>w\<close> it was given so far.
\<close>

definition in_progress :: "nat \<Rightarrow> point list \<Rightarrow> string \<Rightarrow> string \<Rightarrow> state \<Rightarrow> bool" where
  "in_progress r pts c w s =
     (drawing s \<and> currentPath s = Some r \<and> currentPoints s = pts \<and> pts \<noteq> [] \<and>
      (case nodes s r of
         None \<Rightarrow> False
       | Some el \<Rightarrow> attr_d el = live_d pts \<and> attr_stroke el = c \<and> attr_stroke_width el = w))"

text \<open>
  Element \<open>p\<close> is abandoned: allocated, not the path under construction and not in
  the history.
\<close>

definition abandoned :: "nat \<Rightarrow> state \<Rightarrow> bool" where
  "abandoned p s =
     (p < next_node s \<and> currentPath s \<noteq> Some p \<and> p \<notin> set (strokeHistory s))"

subsection \<open>Sample inputs\<close>

text \<open>
  A canvas shown at its logical size, a left-button mouse event, and the scenario of the
  specification: a stroke through (0,0), (5,5) and (10,0), drawn with one setting of the
  controls and released with another.
\<close>

definition sample_env :: "string \<Rightarrow> string \<Rightarrow> env" where
  "sample_env c w =
     \<lparr>boundingClientRect = \<lparr>rect_left = 0, rect_top = 0, rect_width = 1000, rect_height = 600\<rparr>,
      colorPicker_value = c, widthRange_value = w\<rparr>"

definition mouse_at :: "real \<Rightarrow> real \<Rightarrow> pointer_event" where
  "mouse_at x y = \<lparr>pointerType = ''mouse'', button = 0, pointerId = 1, clientX = x, clientY = y\<rparr>"

definition sample_moves :: "input list" where
  "sample_moves =
     [PointerMove (sample_env ''#000000'' ''3'') (mouse_at 5 5),
      PointerMove (sample_env ''#000000'' ''3'') (mouse_at 10 0)]"

definition sample_drawing :: "input list" where
  "sample_drawing = PointerDown (sample_env ''#000000'' ''3'') (mouse_at 0 0) # sample_moves"

definition sample_stroke :: "input list" where
  "sample_stroke = sample_drawing @ [PointerUp (sample_env ''#ff0000'' ''8'') (mouse_at 10 0)]"


text \<open>
  A stroke interrupted after its second point by another pointer-down, and the inputs
  that finish the stroke begun by that pointer-down.
\<close>

definition sample_half :: "input list" where
  "sample_half =
     [PointerDown (sample_env ''#000000'' ''3'') (mouse_at 0 0),
      PointerMove (sample_env ''#000000'' ''3'') (mouse_at 5 5)]"

definition sample_rest :: "input list" where
  "sample_rest =
     [PointerMove (sample_env ''#000000'' ''3'') (mouse_at 20 20),
      PointerUp (sample_env ''#000000'' ''3'') (mouse_at 20 20)]"

text \<open>The element the sample stroke leaves behind, with the given attributes.\<close>

definition sample_el :: "string \<Rightarrow> string \<Rightarrow> path_el" where
  "sample_el c w =
     \<lparr>attr_class = ''stroke'', attr_stroke = c, attr_stroke_width = w, attr_fill = ''none'',
      attr_d = [MoveTo 0 0, QuadTo 5 5 (15 / 2) (5 / 2), LineTo 10 0],
      style_pointerEvents = ''none''\<rparr>"

section \<open>Properties\<close>

subsection \<open>The smoothing loop\<close>

lemma smooth_loop_eq:
  "smooth_loop pts i d =
     d @ map (\<lambda>j. quad_to (pts ! j) (midpoint (pts ! j) (pts ! (j + 1)))) [i ..< length pts - 1]"
proof (induction pts i d rule: smooth_loop.induct)
  case (1 pts i d)
  show ?case
  proof (cases "i < length pts - 1")
    case True
    then have "[i ..< length pts - 1] = i # [i + 1 ..< length pts - 1]"
      by (simp add: upt_conv_Cons)
    with True 1 show ?thesis
      by (subst smooth_loop.simps) (simp add: quad_to_def midpoint_def Let_def)
  next
    case False
    then show ?thesis by (subst smooth_loop.simps) simp
  qed
qed

lemma smooth_d_eq:
  "smooth_d pts =
     move_to (pts ! 0)
     # map (\<lambda>j. quad_to (pts ! j) (midpoint (pts ! j) (pts ! (j + 1)))) [1 ..< length pts - 1]
     @ [line_to (pts ! (length pts - 1))]"
  unfolding smooth_d_def Let_def smooth_loop_eq move_to_def line_to_def
  by simp

lemma length_smooth_d: "2 \<le> length pts \<Longrightarrow> length (smooth_d pts) = length pts"
  by (simp add: smooth_d_eq)

lemma length_live_d: "pts \<noteq> [] \<Longrightarrow> length (live_d pts) = length pts"
proof (cases "length pts = 1")
  case True
  then show ?thesis by (simp add: live_d_def)
next
  case False
  assume "pts \<noteq> []"
  then have "1 \<le> length pts"
    by (cases pts) simp_all
  with False have "2 \<le> length pts"
    by arith
  with False show ?thesis by (simp add: live_d_def length_smooth_d)
qed

lemma live_d_spec: "2 \<le> length pts \<Longrightarrow> live_d pts = spec_curve pts"
  by (auto simp add: live_d_def spec_curve_def smooth_d_eq numeral_2_eq_2)

lemma live_d_snoc_short:
  "pts \<noteq> [] \<Longrightarrow> length (pts @ [p]) < 3 \<Longrightarrow>
   live_d pts @ [LineTo (px p) (py p)] = live_d (pts @ [p])"
  by (cases pts) (auto simp add: live_d_def smooth_d_eq line_to_def)

lemma live_d_snoc_long:
  "\<not> length (pts @ [p]) < 3 \<Longrightarrow> smooth_d (pts @ [p]) = live_d (pts @ [p])"
  by (auto simp add: live_d_def)

subsection \<open>Fields left alone by the helpers\<close>

lemma update_node_fields [simp]:
  "drawing (update_node r f s) = drawing s"
  "currentPath (update_node r f s) = currentPath s"
  "currentPoints (update_node r f s) = currentPoints s"
  "strokeHistory (update_node r f s) = strokeHistory s"
  "next_node (update_node r f s) = next_node s"
  "strokes_children (update_node r f s) = strokes_children s"
  "pointer_capture (update_node r f s) = pointer_capture s"
  by (simp_all add: update_node_def split: option.split)

lemma nodes_update_node:
  "nodes (update_node r f s) q =
     (if q = r then map_option f (nodes s r) else nodes s q)"
  by (simp add: update_node_def split: option.split)

lemma release_fields [simp]:
  "drawing (releasePointerCapture pid s) = drawing s"
  "currentPath (releasePointerCapture pid s) = currentPath s"
  "currentPoints (releasePointerCapture pid s) = currentPoints s"
  "strokeHistory (releasePointerCapture pid s) = strokeHistory s"
  "nodes (releasePointerCapture pid s) = nodes s"
  "next_node (releasePointerCapture pid s) = next_node s"
  "strokes_children (releasePointerCapture pid s) = strokes_children s"
  by (simp_all add: releasePointerCapture_def)

lemma remove_children_Nil [simp]: "remove_children cs = []"
  by (induction cs) simp_all

subsection \<open>Consistency is kept by every handler\<close>

lemma wf_init_state: "wf (init_state n)"
  by (simp add: wf_def init_state_def history_ok_def current_ok_def list_all_iff)

lemma wf_beginStroke: "wf s \<Longrightarrow> wf (snd (beginStroke v e s))"
  by (auto simp add: wf_def beginStroke_def Let_def history_ok_def current_ok_def
      committed_ok_def list_all_iff live_d_def move_to_def split: option.splits)

lemma wf_continueStroke: "wf s \<Longrightarrow> wf (snd (continueStroke v e s))"
  by (auto simp add: wf_def continueStroke_def Let_def history_ok_def current_ok_def
      committed_ok_def list_all_iff nodes_update_node get_d_def
      live_d_snoc_short live_d_snoc_long split: option.splits)


lemma wf_endStroke: "wf s \<Longrightarrow> wf (snd (endStroke v e s))"
  by (auto simp add: wf_def endStroke_def Let_def history_ok_def current_ok_def
      committed_ok_def list_all_iff nodes_update_node length_live_d
      split: option.splits dest: notin_set_remove1)

lemma wf_undoLast: "wf s \<Longrightarrow> wf (snd (undoLast s))"
  by (auto simp add: wf_def undoLast_def Let_def history_ok_def current_ok_def
      committed_ok_def list_all_iff
      split: option.splits list.splits dest: notin_set_remove1 in_set_butlastD)

lemma wf_clearAll: "wf s \<Longrightarrow> wf (snd (clearAll s))"
  by (auto simp add: wf_def clearAll_def Let_def history_ok_def current_ok_def
      split: option.splits)

lemma saveAsPng_state: "snd (saveAsPng l n s) = s"
  by (simp add: saveAsPng_def Let_def split: image_load.split)

lemma wf_step: "wf s \<Longrightarrow> wf (step i s)"
  by (cases i)
     (simp_all add: wf_beginStroke wf_continueStroke wf_endStroke wf_undoLast wf_clearAll
        saveAsPng_state)

lemma wf_run: "wf s \<Longrightarrow> wf (run ins s)"
  by (induction ins arbitrary: s) (simp_all add: wf_step)

subsection \<open>A stroke in progress\<close>

lemma in_progress_beginStroke:
  "passes_filter e \<Longrightarrow>
   in_progress (next_node s) [getSvgPoint v e] (colorPicker_value v) (widthRange_value v)
     (snd (beginStroke v e s))"
  by (auto simp add: in_progress_def beginStroke_def passes_filter_def Let_def live_d_def move_to_def)

lemma in_progress_continueStroke:
  "in_progress r pts c w s \<Longrightarrow>
   in_progress r (pts @ [getSvgPoint v e]) c w (snd (continueStroke v e s))"
  by (auto simp add: in_progress_def continueStroke_def Let_def nodes_update_node get_d_def
      live_d_snoc_short live_d_snoc_long split: option.splits)

lemma in_progress_undoLast:
  "in_progress r pts c w s \<Longrightarrow> in_progress r pts c w (snd (undoLast s))"
  by (auto simp add: in_progress_def undoLast_def Let_def split: list.splits option.splits)

lemma in_progress_clearAll:
  "in_progress r pts c w s \<Longrightarrow> in_progress r pts c w (snd (clearAll s))"
  by (auto simp add: in_progress_def clearAll_def Let_def split: option.splits)

lemma in_progress_step:
  "in_progress r pts c w s \<Longrightarrow> \<not> is_button_input i \<Longrightarrow>
   in_progress r (pts @ move_samples [i]) c w (step i s)"
  by (cases i)
     (simp_all add: in_progress_continueStroke in_progress_undoLast in_progress_clearAll
        saveAsPng_state)

lemma move_samples_Cons: "move_samples (i # is) = move_samples [i] @ move_samples is"
  by (cases i) simp_all

lemma in_progress_run:
  "in_progress r pts c w s \<Longrightarrow> list_all (\<lambda>i. \<not> is_button_input i) mid \<Longrightarrow>
   in_progress r (pts @ move_samples mid) c w (run mid s)"
proof (induction mid arbitrary: s pts)
  case Nil
  then show ?case by simp
next
  case (Cons i mid)
  from Cons.prems have "in_progress r (pts @ move_samples [i]) c w (step i s)"
    by (simp add: in_progress_step)
  moreover from Cons.prems have "list_all (\<lambda>i. \<not> is_button_input i) mid"
    by simp
  ultimately have "in_progress r ((pts @ move_samples [i]) @ move_samples mid) c w
      (run mid (step i s))"
    by (rule Cons.IH)
  then show ?case
    by (simp add: move_samples_Cons [of i mid])
qed

lemma endStroke_commit:
  assumes "in_progress r pts c w s" and "2 \<le> length pts"
  shows "fst (endStroke v e s) = Returned"
    and "strokeHistory (snd (endStroke v e s)) = strokeHistory s @ [r]"
    and "strokes_children (snd (endStroke v e s)) = strokes_children s"
    and "\<exists>el. nodes (snd (endStroke v e s)) r = Some el \<and> attr_d el = live_d pts \<and>
           attr_stroke el = colorPicker_value v \<and> attr_stroke_width el = widthRange_value v"
  using assms
  by (auto simp add: in_progress_def endStroke_def Let_def nodes_update_node
      split: option.splits)


subsection \<open>An abandoned element stays abandoned\<close>

lemma abandoned_step: "abandoned p s \<Longrightarrow> abandoned p (step i s)"
  by (cases i)
     (auto simp add: abandoned_def beginStroke_def continueStroke_def endStroke_def
        undoLast_def clearAll_def saveAsPng_state Let_def
        split: option.splits list.splits dest: in_set_butlastD)

lemma abandoned_run: "abandoned p s \<Longrightarrow> abandoned p (run ins s)"
  by (induction ins arbitrary: s) (simp_all add: abandoned_step)

subsection \<open>The sample inputs\<close>

lemma getSvgPoint_sample [simp]:
  "getSvgPoint (sample_env c w) (mouse_at 0 0) = \<lparr>px = 0, py = 0\<rparr>"
  "getSvgPoint (sample_env c w) (mouse_at 5 5) = \<lparr>px = 5, py = 5\<rparr>"
  "getSvgPoint (sample_env c w) (mouse_at 10 0) = \<lparr>px = 10, py = 0\<rparr>"
  "getSvgPoint (sample_env c w) (mouse_at 20 20) = \<lparr>px = 20, py = 20\<rparr>"
  by (simp_all add: getSvgPoint_def sample_env_def mouse_at_def vbWidth_def vbHeight_def Let_def)

lemma passes_filter_mouse_at [simp]: "passes_filter (mouse_at x y)"
  by (simp add: passes_filter_def mouse_at_def)

lemma sample_fields [simp]:
  "pointerType (mouse_at x y) = ''mouse''"
  "button (mouse_at x y) = 0"
  "pointerId (mouse_at x y) = 1"
  "colorPicker_value (sample_env c w) = c"
  "widthRange_value (sample_env c w) = w"
  by (simp_all add: mouse_at_def sample_env_def)

lemmas handler_defs =
  beginStroke_def continueStroke_def endStroke_def undoLast_def clearAll_def
  releasePointerCapture_def update_node_def get_d_def init_state_def Let_def

lemma smooth_d_three:
  "smooth_d [a, b, c] =
     [MoveTo (px a) (py a), QuadTo (px b) (py b) ((px b + px c) / 2) ((py b + py c) / 2),
      LineTo (px c) (py c)]"
  by (simp add: smooth_d_eq move_to_def quad_to_def line_to_def midpoint_def)

lemma run_sample_drawn:
  "run sample_drawing (init_state 0) =
     \<lparr>drawing = True, currentPath = Some 0,
      currentPoints = [\<lparr>px = 0, py = 0\<rparr>, \<lparr>px = 5, py = 5\<rparr>, \<lparr>px = 10, py = 0\<rparr>],
      strokeHistory = [],
      nodes = [0 \<mapsto> sample_el ''#000000'' ''3''],
      next_node = 1, strokes_children = [0], pointer_capture = Some 1\<rparr>"
  by (simp add: sample_drawing_def sample_moves_def handler_defs smooth_d_three sample_el_def)

lemma run_sample_stroke:
  "run sample_stroke (init_state 0) =
     \<lparr>drawing = False, currentPath = None, currentPoints = [],
      strokeHistory = [0],
      nodes = [0 \<mapsto> sample_el ''#ff0000'' ''8''],
      next_node = 1, strokes_children = [0], pointer_capture = None\<rparr>"
  by (simp add: sample_stroke_def sample_drawing_def sample_moves_def handler_defs smooth_d_three
      sample_el_def)

subsection \<open>Reachable states\<close>

lemma wf_reachable: "wf (run ins (init_state n))"
  by (rule wf_run [OF wf_init_state])

lemma current_d:
  "wf s \<Longrightarrow> currentPath s = Some r \<Longrightarrow>
   currentPoints s \<noteq> [] \<and> get_d s r = live_d (currentPoints s)"
  by (auto simp add: wf_def current_ok_def get_d_def split: option.splits)

lemma undoLast_nonempty:
  assumes "strokeHistory s \<noteq> []"
  shows "strokeHistory (snd (undoLast s)) = butlast (strokeHistory s)"
    and "strokes_children (snd (undoLast s)) = remove1 (last (strokeHistory s)) (strokes_children s)"
  using assms
  by (cases "strokeHistory s" rule: rev_cases; simp add: undoLast_def Let_def remove1_idem)+

lemma continueStroke_records:
  "drawing s \<Longrightarrow> currentPath s = Some r \<Longrightarrow>
   currentPoints (snd (continueStroke v e s)) = currentPoints s @ [getSvgPoint v e] \<and>
   currentPath (snd (continueStroke v e s)) = Some r"
  by (simp add: continueStroke_def Let_def)

subsection \<open>Gestures\<close>

lemma gesture_in_progress:
  assumes "passes_filter e0" and "list_all (\<lambda>i. \<not> is_button_input i) mid"
  shows "in_progress (next_node s) (getSvgPoint v0 e0 # move_samples mid)
           (colorPicker_value v0) (widthRange_value v0) (run mid (snd (beginStroke v0 e0 s)))"
proof -
  from assms(1)
  have "in_progress (next_node s) [getSvgPoint v0 e0] (colorPicker_value v0) (widthRange_value v0)
          (snd (beginStroke v0 e0 s))"
    by (rule in_progress_beginStroke)
  from in_progress_run [OF this assms(2)] show ?thesis
    by simp
qed

lemma run_append: "run (xs @ ys) s = run ys (run xs s)"
  by (induction xs arbitrary: s) simp_all

lemma sample_stroke_unfold:
  "snd (endStroke (sample_env ''#ff0000'' ''8'') (mouse_at 10 0) (run sample_drawing (init_state 0)))
   = run sample_stroke (init_state 0)"
  "run sample_moves (snd (beginStroke (sample_env ''#000000'' ''3'') (mouse_at 0 0) (init_state 0)))
   = run sample_drawing (init_state 0)"
  by (simp_all add: sample_stroke_def sample_drawing_def run_append)

lemma sample_moves_facts:
  "list_all (\<lambda>i. \<not> is_button_input i) sample_moves"
  "move_samples sample_moves = [\<lparr>px = 5, py = 5\<rparr>, \<lparr>px = 10, py = 0\<rparr>]"
  by (simp_all add: sample_moves_def)

subsection \<open>Committed strokes and taps\<close>




subsection \<open>Undo\<close>

lemma undoLast_returns: "fst (undoLast s) = Returned"
  by (simp add: undoLast_def Let_def split: list.split)

lemma undoLast_empty: "strokeHistory s = [] \<Longrightarrow> snd (undoLast s) = s"
  by (simp add: undoLast_def)

subsection \<open>A pointer-down during a stroke\<close>

lemma beginStroke_passes:
  assumes "passes_filter e" and "s1 = snd (beginStroke v e s)"
  shows "strokes_children s1 = strokes_children s @ [next_node s]"
    and "strokeHistory s1 = strokeHistory s"
    and "nodes s1 = (nodes s)(next_node s \<mapsto>
           \<lparr>attr_class = ''stroke'', attr_stroke = colorPicker_value v,
            attr_stroke_width = widthRange_value v, attr_fill = ''none'',
            attr_d = [MoveTo (px (getSvgPoint v e)) (py (getSvgPoint v e))],
            style_pointerEvents = ''none''\<rparr>)"
    and "drawing s1"
    and "currentPath s1 = Some (next_node s)"
    and "currentPoints s1 = [getSvgPoint v e]"
    and "next_node s1 = Suc (next_node s)"
  using assms by (auto simp add: beginStroke_def passes_filter_def Let_def)

lemma undoLast_keeps_others:
  "p \<notin> set (strokeHistory s) \<Longrightarrow> p \<in> set (strokes_children s) \<Longrightarrow>
   p \<in> set (strokes_children (snd (undoLast s)))"
  by (cases "strokeHistory s" rule: rev_cases) (auto simp add: undoLast_def Let_def)

lemma run_sample_half:
  "run sample_half (init_state 0) =
     \<lparr>drawing = True, currentPath = Some 0,
      currentPoints = [\<lparr>px = 0, py = 0\<rparr>, \<lparr>px = 5, py = 5\<rparr>],
      strokeHistory = [],
      nodes = [0 \<mapsto> \<lparr>attr_class = ''stroke'', attr_stroke = ''#000000'', attr_stroke_width = ''3'',
                     attr_fill = ''none'', attr_d = [MoveTo 0 0, LineTo 5 5],
                     style_pointerEvents = ''none''\<rparr>],
      next_node = 1, strokes_children = [0], pointer_capture = Some 1\<rparr>"
  by (simp add: sample_half_def handler_defs)

lemma run_sample_rest:
  "run sample_rest (snd (beginStroke (sample_env ''#000000'' ''3'') (mouse_at 10 0)
     (run sample_half (init_state 0)))) =
     \<lparr>drawing = False, currentPath = None, currentPoints = [],
      strokeHistory = [1],
      nodes = [0 \<mapsto> \<lparr>attr_class = ''stroke'', attr_stroke = ''#000000'', attr_stroke_width = ''3'',
                     attr_fill = ''none'', attr_d = [MoveTo 0 0, LineTo 5 5],
                     style_pointerEvents = ''none''\<rparr>,
               1 \<mapsto> \<lparr>attr_class = ''stroke'', attr_stroke = ''#000000'', attr_stroke_width = ''3'',
                     attr_fill = ''none'', attr_d = [MoveTo 10 0, LineTo 20 20],
                     style_pointerEvents = ''none''\<rparr>],
      next_node = 2, strokes_children = [0, 1], pointer_capture = None\<rparr>"
  unfolding run_sample_half
  by (simp add: sample_rest_def handler_defs)

section \<open>The claims\<close>

text \<open>
  C6. Clear always results in an empty stroke history and removes every child of the
  stroke group from the scene, whatever the state before (an empty history included);
  the handler raises nothing.
\<close>

theorem clearAll_empties:
  "fst (clearAll s) = Returned \<and>
   strokeHistory (snd (clearAll s)) = [] \<and>
   strokes_children (snd (clearAll s)) = []"
  by (simp add: clearAll_def Let_def)

text \<open>
  C1. In every state reached from the initial one, an active stroke whose recorded point
  list \<open>P\<close> has at least 3 points is rendered as a move to \<open>P[0]\<close>, then for every
  interior point \<open>P[i]\<close> (\<open>i = 1 .. n-2\<close>) a quadratic segment with control point
  \<open>P[i]\<close> and end point the midpoint of \<open>P[i]\<close> and \<open>P[i+1]\<close>, then a straight
  segment to the last recorded point; so the path ends at the most recent sample.
\<close>

theorem active_stroke_quadratic_chain:
  assumes "s = run ins (init_state n)"
    and "drawing s" and "currentPath s = Some r"
    and "P = currentPoints s" and "3 \<le> length P"
  shows "get_d s r =
           move_to (P ! 0)
           # map (\<lambda>i. quad_to (P ! i) (midpoint (P ! i) (P ! (i + 1)))) [1 ..< length P - 1]
           @ [line_to (P ! (length P - 1))]
         \<and> last (get_d s r) = line_to (last P)"
proof -
  from assms(1) have "wf s"
    by (simp add: wf_reachable)
  with assms(3) have d: "get_d s r = live_d (currentPoints s)"
    by (simp add: current_d)
  from assms(4,5) have "length (currentPoints s) \<noteq> 1" and "P \<noteq> []"
    by auto
  with d assms(4) have "get_d s r = smooth_d P"
    by (simp add: live_d_def)
  moreover from \<open>P \<noteq> []\<close> have "P ! (length P - 1) = last P"
    by (simp add: last_conv_nth)
  ultimately show ?thesis
    by (simp add: smooth_d_eq)
qed

theorem active_stroke_quadratic_chain_witness:
  "drawing (run sample_drawing (init_state 0))
   \<and> currentPath (run sample_drawing (init_state 0)) = Some 0
   \<and> 3 \<le> length (currentPoints (run sample_drawing (init_state 0)))
   \<and> get_d (run sample_drawing (init_state 0)) 0
       = [MoveTo 0 0, QuadTo 5 5 (15 / 2) (5 / 2), LineTo 10 0]"
proof -
  let ?s = "run sample_drawing (init_state 0)"
  have a: "drawing ?s" and b: "currentPath ?s = Some 0" and c: "3 \<le> length (currentPoints ?s)"
    by (simp_all add: run_sample_drawn)
  have P: "currentPoints ?s = [\<lparr>px = 0, py = 0\<rparr>, \<lparr>px = 5, py = 5\<rparr>, \<lparr>px = 10, py = 0\<rparr>]"
    by (simp add: run_sample_drawn)
  from active_stroke_quadratic_chain [where ins = sample_drawing and n = 0, OF refl a b refl c]
  have "get_d ?s 0 = [MoveTo 0 0, QuadTo 5 5 (15 / 2) (5 / 2), LineTo 10 0]"
    unfolding P by (simp add: move_to_def quad_to_def line_to_def midpoint_def)
  with a b c show ?thesis
    by simp
qed

text \<open>
  C4. After every move sample that is recorded, in every state reached from the initial
  one, the \<^verbatim>\<open>d\<close> attribute of the active path is what the smoothing rules of the
  specification give when applied from scratch to the whole point list; this covers the
  branch for fewer than 3 points, which appends a line piece to the attribute instead of
  rebuilding it.
\<close>

theorem move_sample_recomputes_curve:
  assumes "s = run ins (init_state n)"
    and "drawing s" and "currentPath s = Some r"
    and "s' = snd (continueStroke v e s)"
  shows "currentPoints s' = currentPoints s @ [getSvgPoint v e]
         \<and> get_d s' r = spec_curve (currentPoints s')"
proof -
  from assms(1) have "wf s"
    by (simp add: wf_reachable)
  then have "wf s'"
    unfolding assms(4) by (rule wf_continueStroke)
  from assms(2,3) have rec: "currentPoints s' = currentPoints s @ [getSvgPoint v e]"
    and cur: "currentPath s' = Some r"
    unfolding assms(4) by (simp_all add: continueStroke_records)
  from \<open>wf s\<close> assms(3) have "currentPoints s \<noteq> []"
    by (simp add: current_d)
  then have "1 \<le> length (currentPoints s)"
    by (cases "currentPoints s") simp_all
  with rec have "2 \<le> length (currentPoints s')"
    by simp
  moreover from \<open>wf s'\<close> cur have "get_d s' r = live_d (currentPoints s')"
    by (simp add: current_d)
  ultimately have "get_d s' r = spec_curve (currentPoints s')"
    by (simp add: live_d_spec)
  with rec show ?thesis
    by simp
qed

theorem move_sample_recomputes_curve_witness:
  "drawing (run [PointerDown (sample_env ''#000000'' ''3'') (mouse_at 0 0)] (init_state 0))
   \<and> currentPath (run [PointerDown (sample_env ''#000000'' ''3'') (mouse_at 0 0)] (init_state 0)) = Some 0
   \<and> get_d (snd (continueStroke (sample_env ''#000000'' ''3'') (mouse_at 5 5)
        (run [PointerDown (sample_env ''#000000'' ''3'') (mouse_at 0 0)] (init_state 0)))) 0
      = spec_curve [\<lparr>px = 0, py = 0\<rparr>, \<lparr>px = 5, py = 5\<rparr>]
   \<and> spec_curve [\<lparr>px = 0, py = 0\<rparr>, \<lparr>px = 5, py = 5\<rparr>] = [MoveTo 0 0, LineTo 5 5]"
  using move_sample_recomputes_curve
    [where ins = "[PointerDown (sample_env ''#000000'' ''3'') (mouse_at 0 0)]" and n = 0
       and r = 0 and v = "sample_env ''#000000'' ''3''" and e = "mouse_at 5 5", OF refl _ _ refl]
  by (simp add: handler_defs spec_curve_def move_to_def line_to_def)

text \<open>
  C2. A gesture started in any state, with at least 2 samples (the pointer-down and at
  least one pointer-move), ends with the release handler appending exactly one stroke to
  the history: the element created at pointer-down. Its point count is the number of
  samples, and its \<^verbatim>\<open>d\<close> attribute is the curve of all of them, none dropped.
\<close>

theorem gesture_commits_one_stroke:
  assumes "passes_filter e_down"
    and "list_all (\<lambda>i. \<not> is_button_input i) mid"
    and "1 \<le> length (move_samples mid)"
    and "r = next_node s"
    and "s1 = snd (beginStroke v_down e_down s)"
    and "s2 = run mid s1"
    and "s3 = snd (endStroke v_up e_up s2)"
  shows "fst (endStroke v_up e_up s2) = Returned
         \<and> strokeHistory s3 = strokeHistory s2 @ [r]
         \<and> point_count s3 r = 1 + length (move_samples mid)
         \<and> get_d s3 r = spec_curve (getSvgPoint v_down e_down # move_samples mid)"
proof -
  let ?pts = "getSvgPoint v_down e_down # move_samples mid"
  from assms(1,2) have prog: "in_progress r ?pts (colorPicker_value v_down) (widthRange_value v_down) s2"
    unfolding assms(4,5,6) by (rule gesture_in_progress)
  from assms(3) have len: "2 \<le> length ?pts"
    by simp
  from endStroke_commit(4) [OF prog len, of v_up e_up]
  have d: "get_d s3 r = live_d ?pts"
    unfolding assms(7) by (auto simp add: get_d_def)
  with len have "get_d s3 r = spec_curve ?pts"
    by (simp only: live_d_spec)
  moreover from d have "point_count s3 r = 1 + length (move_samples mid)"
    by (simp add: point_count_def length_live_d)
  moreover have "fst (endStroke v_up e_up s2) = Returned"
    by (rule endStroke_commit(1) [OF prog len])
  moreover have "strokeHistory s3 = strokeHistory s2 @ [r]"
    unfolding assms(7) by (rule endStroke_commit(2) [OF prog len])
  ultimately show ?thesis
    by simp
qed

theorem gesture_commits_one_stroke_witness:
  "passes_filter (mouse_at 0 0)
   \<and> list_all (\<lambda>i. \<not> is_button_input i) sample_moves
   \<and> 1 \<le> length (move_samples sample_moves)
   \<and> strokeHistory (run sample_drawing (init_state 0)) = []
   \<and> strokeHistory (run sample_stroke (init_state 0)) = [0]
   \<and> point_count (run sample_stroke (init_state 0)) 0 = 3"
proof -
  have n: "1 \<le> length (move_samples sample_moves)"
    by (simp add: sample_moves_facts)
  have z: "0 = next_node (init_state 0)"
    by (simp add: init_state_def)
  have h: "strokeHistory (run sample_drawing (init_state 0)) = []"
    by (simp add: run_sample_drawn)
  from gesture_commits_one_stroke
    [where v_down = "sample_env ''#000000'' ''3''" and v_up = "sample_env ''#ff0000'' ''8''"
       and e_up = "mouse_at 10 0" and e_down = "mouse_at 0 0",
     OF passes_filter_mouse_at sample_moves_facts(1) n z refl refl refl]
  have "strokeHistory (run sample_stroke (init_state 0)) = [0]
        \<and> point_count (run sample_stroke (init_state 0)) 0 = 3"
    unfolding sample_stroke_unfold by (simp add: h sample_moves_facts)
  with n h sample_moves_facts(1) show ?thesis
    by simp
qed

text \<open>
  C8. For a gesture with at least 2 samples, the stroke carries the values the controls
  had at pointer-down until the release; the release handler overwrites the stroke colour
  and width with the values of the controls at release and then appends the stroke to the
  history.
\<close>

theorem commit_uses_release_controls:
  assumes "passes_filter e_down"
    and "list_all (\<lambda>i. \<not> is_button_input i) mid"
    and "1 \<le> length (move_samples mid)"
    and "r = next_node s"
    and "s1 = snd (beginStroke v_down e_down s)"
    and "s2 = run mid s1"
    and "s3 = snd (endStroke v_up e_up s2)"
  shows "map_option attr_stroke (nodes s2 r) = Some (colorPicker_value v_down)
         \<and> map_option attr_stroke_width (nodes s2 r) = Some (widthRange_value v_down)
         \<and> map_option attr_stroke (nodes s3 r) = Some (colorPicker_value v_up)
         \<and> map_option attr_stroke_width (nodes s3 r) = Some (widthRange_value v_up)
         \<and> strokeHistory s3 = strokeHistory s2 @ [r]"
proof -
  let ?pts = "getSvgPoint v_down e_down # move_samples mid"
  from assms(1,2) have prog: "in_progress r ?pts (colorPicker_value v_down) (widthRange_value v_down) s2"
    unfolding assms(4,5,6) by (rule gesture_in_progress)
  from assms(3) have len: "2 \<le> length ?pts"
    by simp
  from prog have "map_option attr_stroke (nodes s2 r) = Some (colorPicker_value v_down)"
    and "map_option attr_stroke_width (nodes s2 r) = Some (widthRange_value v_down)"
    by (auto simp add: in_progress_def split: option.splits)
  moreover from endStroke_commit(4) [OF prog len, of v_up e_up]
  have "map_option attr_stroke (nodes s3 r) = Some (colorPicker_value v_up)"
    and "map_option attr_stroke_width (nodes s3 r) = Some (widthRange_value v_up)"
    unfolding assms(7) by auto
  moreover have "strokeHistory s3 = strokeHistory s2 @ [r]"
    unfolding assms(7) by (rule endStroke_commit(2) [OF prog len])
  ultimately show ?thesis
    by simp
qed

theorem commit_uses_release_controls_witness:
  "passes_filter (mouse_at 0 0)
   \<and> list_all (\<lambda>i. \<not> is_button_input i) sample_moves
   \<and> 1 \<le> length (move_samples sample_moves)
   \<and> map_option attr_stroke (nodes (run sample_drawing (init_state 0)) 0) = Some ''#000000''
   \<and> map_option attr_stroke_width (nodes (run sample_drawing (init_state 0)) 0) = Some ''3''
   \<and> map_option attr_stroke (nodes (run sample_stroke (init_state 0)) 0) = Some ''#ff0000''
   \<and> map_option attr_stroke_width (nodes (run sample_stroke (init_state 0)) 0) = Some ''8''"
proof -
  have n: "1 \<le> length (move_samples sample_moves)"
    by (simp add: sample_moves_facts)
  have z: "0 = next_node (init_state 0)"
    by (simp add: init_state_def)
  from commit_uses_release_controls
    [where v_down = "sample_env ''#000000'' ''3''" and v_up = "sample_env ''#ff0000'' ''8''"
       and e_up = "mouse_at 10 0" and e_down = "mouse_at 0 0",
     OF passes_filter_mouse_at sample_moves_facts(1) n z refl refl refl]
  have "map_option attr_stroke (nodes (run sample_drawing (init_state 0)) 0) = Some ''#000000''
   \<and> map_option attr_stroke_width (nodes (run sample_drawing (init_state 0)) 0) = Some ''3''
   \<and> map_option attr_stroke (nodes (run sample_stroke (init_state 0)) 0) = Some ''#ff0000''
   \<and> map_option attr_stroke_width (nodes (run sample_stroke (init_state 0)) 0) = Some ''8''"
    unfolding sample_stroke_unfold by simp
  with n sample_moves_facts(1) show ?thesis
    by simp
qed



text \<open>
  C5. In every state reached from the initial one, undo on a non-empty history removes
  exactly its last element, so the history is shorter by one, and takes that element,
  and no other, out of the scene; undo on an empty history leaves the whole state as it
  is. Undo raises nothing in either case.
\<close>

theorem undoLast_removes_last:
  assumes "s = run ins (init_state n)" and "s' = snd (undoLast s)"
  shows "fst (undoLast s) = Returned
         \<and> (strokeHistory s \<noteq> [] \<longrightarrow>
               strokeHistory s' = butlast (strokeHistory s)
               \<and> Suc (length (strokeHistory s')) = length (strokeHistory s)
               \<and> last (strokeHistory s) \<notin> set (strokes_children s')
               \<and> set (strokes_children s') = set (strokes_children s) - {last (strokeHistory s)})
         \<and> (strokeHistory s = [] \<longrightarrow> s' = s)"
proof -
  from assms(1) have "wf s"
    by (simp add: wf_reachable)
  then have "distinct (strokes_children s)"
    by (simp add: wf_def)
  then show ?thesis
    unfolding assms(2)
    by (simp add: undoLast_returns undoLast_empty undoLast_nonempty)
qed

theorem undoLast_removes_last_witness:
  "strokeHistory (run sample_stroke (init_state 0)) = [0]
   \<and> strokes_children (run sample_stroke (init_state 0)) = [0]
   \<and> strokeHistory (snd (undoLast (run sample_stroke (init_state 0)))) = []
   \<and> strokes_children (snd (undoLast (run sample_stroke (init_state 0)))) = []
   \<and> strokeHistory (run [] (init_state 0)) = []
   \<and> snd (undoLast (run [] (init_state 0))) = run [] (init_state 0)"
proof -
  let ?s = "run sample_stroke (init_state 0)"
  have a: "strokeHistory ?s = [0]" and b: "strokes_children ?s = [0]"
    by (simp_all add: run_sample_stroke)
  from undoLast_removes_last [where ins = sample_stroke and n = 0, OF refl refl] a b
  have "strokeHistory (snd (undoLast ?s)) = [] \<and> strokes_children (snd (undoLast ?s)) = []"
    by simp
  moreover have c: "strokeHistory (run [] (init_state 0)) = []"
    by (simp add: init_state_def)
  moreover from undoLast_removes_last [where ins = "[]" and n = 0, OF refl refl] c
  have "snd (undoLast (run [] (init_state 0))) = run [] (init_state 0)"
    by blast
  ultimately show ?thesis
    using a b by simp
qed

text \<open>
  C9. When the image of the serialised scene fails to load, the export raises the
  notice and triggers no download; a download is triggered exactly when the image loads
  and the notice is raised exactly when it does not. The export leaves the state, and
  with it the stroke history and the scene, unchanged in both cases.
\<close>

theorem saveAsPng_failure_alerts:
  "snd (saveAsPng l now s) = s
   \<and> Alert save_failed_message \<in> set (fst (saveAsPng Failed now s))
   \<and> (\<forall>f. Download f \<notin> set (fst (saveAsPng Failed now s)))
   \<and> ((\<exists>f. Download f \<in> set (fst (saveAsPng l now s))) \<longleftrightarrow> l = Loaded)
   \<and> ((\<exists>m. Alert m \<in> set (fst (saveAsPng l now s))) \<longleftrightarrow> l = Failed)"
  by (cases l) (simp_all add: saveAsPng_def Let_def)

theorem saveAsPng_failure_alerts_witness:
  "saveAsPng Failed 1730628000123 (run sample_stroke (init_state 0)) =
     ([CreateObjectURL [Some (sample_el ''#ff0000'' ''8'')], RevokeObjectURL,
       Alert save_failed_message], run sample_stroke (init_state 0))
   \<and> saveAsPng Loaded 1730628000123 (run sample_stroke (init_state 0)) =
     ([CreateObjectURL [Some (sample_el ''#ff0000'' ''8'')],
       FillRect ''#ffffff'' 0 0 1000 600, DrawImage 0 0 1000 600, RevokeObjectURL,
       Download ''drawing_1730628000123.png''], run sample_stroke (init_state 0))"
  using saveAsPng_failure_alerts [of Failed 1730628000123 "run sample_stroke (init_state 0)"]
    saveAsPng_failure_alerts [of Loaded 1730628000123 "run sample_stroke (init_state 0)"]
  by (simp add: saveAsPng_def run_sample_stroke decimal.simps digit_char_def)

text \<open>
  C10. In every state reached from the initial one in which a stroke is in progress, a
  pointer-down that passes the button filter leaves the previous path where it is (the
  scene only gains the new path, and the old element is not touched), replaces the
  recorded points by the new event's point and makes a fresh element the active path.
  Whatever inputs follow, the previous path is never in the stroke history, so an undo
  does not take it out of the scene.
\<close>

theorem second_pointer_down_abandons_path:
  assumes "s = run ins (init_state n)"
    and "drawing s" and "currentPath s = Some p"
    and "passes_filter e"
    and "s1 = snd (beginStroke v e s)"
    and "s2 = run post s1"
  shows "strokes_children s1 = strokes_children s @ [next_node s]
         \<and> nodes s1 p = nodes s p
         \<and> strokeHistory s1 = strokeHistory s
         \<and> drawing s1 \<and> currentPath s1 = Some (next_node s) \<and> next_node s \<noteq> p
         \<and> currentPoints s1 = [getSvgPoint v e]
         \<and> p \<notin> set (strokeHistory s2)
         \<and> (p \<in> set (strokes_children s2) \<longrightarrow> p \<in> set (strokes_children (snd (undoLast s2))))"
proof -
  note b = beginStroke_passes [OF assms(4,5)]
  from assms(1) have "wf s"
    by (simp add: wf_reachable)
  with assms(3) have p: "p < next_node s" "p \<notin> set (strokeHistory s)"
    by (simp_all add: wf_def current_ok_def)
  with b have "abandoned p s1"
    by (simp add: abandoned_def)
  then have "abandoned p s2"
    unfolding assms(6) by (rule abandoned_run)
  then have h: "p \<notin> set (strokeHistory s2)"
    by (simp add: abandoned_def)
  from p(1) b(3) have "nodes s1 p = nodes s p"
    by simp
  with b p(1) h show ?thesis
    by (simp add: undoLast_keeps_others)
qed

theorem second_pointer_down_abandons_path_witness:
  "drawing (run sample_half (init_state 0))
   \<and> currentPath (run sample_half (init_state 0)) = Some 0
   \<and> passes_filter (mouse_at 10 0)
   \<and> strokes_children (snd (beginStroke (sample_env ''#000000'' ''3'') (mouse_at 10 0)
        (run sample_half (init_state 0)))) = [0, 1]
   \<and> strokeHistory (run sample_rest (snd (beginStroke (sample_env ''#000000'' ''3'') (mouse_at 10 0)
        (run sample_half (init_state 0))))) = [1]
   \<and> 0 \<in> set (strokes_children (run sample_rest (snd (beginStroke (sample_env ''#000000'' ''3'')
        (mouse_at 10 0) (run sample_half (init_state 0))))))
   \<and> 0 \<in> set (strokes_children (snd (undoLast (run sample_rest (snd (beginStroke
        (sample_env ''#000000'' ''3'') (mouse_at 10 0) (run sample_half (init_state 0))))))))"
proof -
  let ?s = "run sample_half (init_state 0)"
  let ?s1 = "snd (beginStroke (sample_env ''#000000'' ''3'') (mouse_at 10 0) ?s)"
  let ?s2 = "run sample_rest ?s1"
  have a: "drawing ?s" and b: "currentPath ?s = Some 0" and n: "next_node ?s = 1"
    and k: "strokes_children ?s = [0]"
    by (simp_all add: run_sample_half)
  have c: "strokeHistory ?s2 = [1]" and d: "0 \<in> set (strokes_children ?s2)"
    by (simp_all add: run_sample_rest)
  from second_pointer_down_abandons_path
    [where ins = sample_half and n = 0 and e = "mouse_at 10 0"
       and v = "sample_env ''#000000'' ''3''" and post = sample_rest,
     OF refl a b passes_filter_mouse_at refl refl] n k d
  have "strokes_children ?s1 = [0, 1] \<and> 0 \<in> set (strokes_children (snd (undoLast ?s2)))"
    by simp
  with a b c d show ?thesis
    by simp
qed

end
